theory Spec2Isabelle
  imports Complex_Main
begin

section \<open>Python values and exceptions\<close>

text \<open>
  The exceptions that the control flow of \<^verbatim>\<open>train.py\<close> can raise, as values.
\<close>

datatype error =
    KeyError | TypeError | IndexError | RuntimeError
  | ZeroDivisionError | UnboundLocalError | FileNotFoundError

text \<open>
  The values a statistic can hold. \<open>PyNum\<close> is a Python int or a float that is a
  number, read as a real number, and \<open>PyNaN\<close> is the float NaN (\<open>max\<close> and the
  comparisons do no rounding). \<open>PyList\<close> is a Python list of floats, the type
  \<^verbatim>\<open>validate\<close> is annotated to return. \<open>PyTensor\<close> is a one-dimensional tensor: its
  comparisons are elementwise, and the truth value of the result is defined only when
  it has exactly one element. \<open>PyScalarTensor\<close> is a tensor of dimension zero, which
  compares as a number but has no element 0. The elements of lists and tensors are read
  as real numbers: NaN inside them and the rounding of tensor elements are left out.
\<close>

datatype pyval =
    PyNum real | PyNaN | PyList "real list" | PyTensor "real list" | PyScalarTensor real

type_synonym stats = "string \<Rightarrow> pyval option"

text \<open>Python's \<^verbatim>\<open>xs > ys\<close> on two lists: lexicographic.\<close>

fun list_gt :: "real list \<Rightarrow> real list \<Rightarrow> bool" where
  "list_gt [] ys = False"
| "list_gt (x # xs) [] = True"
| "list_gt (x # xs) (y # ys) = (if x = y then list_gt xs ys else y < x)"

text \<open>
  The number a scalar value stands for, \<open>None\<close> for NaN, and \<^verbatim>\<open>x > y\<close> on two floats:
  every comparison with NaN is false.
\<close>

fun scalar_value :: "pyval \<Rightarrow> real option" where
  "scalar_value (PyNum x) = Some x"
| "scalar_value (PyScalarTensor x) = Some x"
| "scalar_value v = None"

fun float_gt :: "real option \<Rightarrow> real option \<Rightarrow> bool" where
  "float_gt (Some x) (Some y) = (y < x)"
| "float_gt x y = False"

text \<open>
  The truth value of \<^verbatim>\<open>a > b\<close>, or the exception that taking it raises: a list
  compares with lists only, a one-dimensional tensor has a truth value only with one
  element, and the other values compare as floats.
\<close>

fun py_gt :: "pyval \<Rightarrow> pyval \<Rightarrow> error + bool" where
  "py_gt (PyList xs) (PyList ys) = Inr (list_gt xs ys)"
| "py_gt (PyList xs) b = Inl TypeError"
| "py_gt a (PyList ys) = Inl TypeError"
| "py_gt (PyTensor xs) (PyTensor ys) =
     (case (xs, ys) of ([x], [y]) \<Rightarrow> Inr (y < x) | _ \<Rightarrow> Inl RuntimeError)"
| "py_gt (PyTensor xs) b =
     (case xs of [x] \<Rightarrow> Inr (float_gt (Some x) (scalar_value b)) | _ \<Rightarrow> Inl RuntimeError)"
| "py_gt a (PyTensor ys) =
     (case ys of [y] \<Rightarrow> Inr (float_gt (scalar_value a) (Some y)) | _ \<Rightarrow> Inl RuntimeError)"
| "py_gt a b = Inr (float_gt (scalar_value a) (scalar_value b))"

text \<open>
  The builtin \<^verbatim>\<open>max(a, b)\<close>: it keeps its first argument unless the second is
  greater.
\<close>

definition py_max :: "pyval \<Rightarrow> pyval \<Rightarrow> error + pyval" where
  "py_max a b =
     (case py_gt b a of
        Inl e \<Rightarrow> Inl e
      | Inr gt \<Rightarrow> Inr (if gt then b else a))"

text \<open>
  The subscript \<^verbatim>\<open>v[0]\<close>: a float cannot be subscripted, an empty list or tensor and
  a tensor of dimension zero have no element 0.
\<close>

fun py_getitem0 :: "pyval \<Rightarrow> error + pyval" where
  "py_getitem0 (PyNum x) = Inl TypeError"
| "py_getitem0 PyNaN = Inl TypeError"
| "py_getitem0 (PyList []) = Inl IndexError"
| "py_getitem0 (PyList (x # xs)) = Inr (PyNum x)"
| "py_getitem0 (PyTensor []) = Inl IndexError"
| "py_getitem0 (PyTensor (x # xs)) = Inr (PyNum x)"
| "py_getitem0 (PyScalarTensor x) = Inl IndexError"

text \<open>
  The builtin \<^verbatim>\<open>round(x, 0)\<close> on a float: to the nearest whole number, a tie to the
  even one.
\<close>

definition py_round :: "real \<Rightarrow> int" where
  "py_round x =
     (let f = \<lfloor>x\<rfloor>; d = x - of_int f
      in if d < 1/2 then f else if 1/2 < d then f + 1 else if even f then f else f + 1)"

section \<open>The state of one worker process\<close>

text \<open>
  A training batch as \<^verbatim>\<open>trainer.train_step\<close> sees it: whether the step runs into
  an overflow, out-of-memory or NaN event, and the scalars the step logs otherwise.
\<close>

datatype batch = Batch (overflow: bool) (scalars: "(string \<times> pyval) list")

text \<open>The command-line arguments the control flow reads.\<close>

record args =
  max_epoch :: int
  log_interval :: int
  save_interval :: int
  is_master :: bool

text \<open>The Run snapshot a checkpoint holds, and the names under \<^verbatim>\<open>save_dir\<close>.\<close>

record run =
  run_epoch :: int
  run_num_updates :: int
  run_best_score :: "pyval option"

datatype ckpt_name = EpochCkpt int | BestCkpt

text \<open>
  The side effects in the order they happen. \<open>ProgressLog\<close> and \<open>ProgressPrint\<close>
  carry the stats, the tag and the step; \<open>SaveCheckpoint\<close> is the call of
  \<^verbatim>\<open>checkpoint_utils.save_checkpoint\<close> with the epoch and the validation value.
\<close>

datatype event =
    BeginEpoch int
  | TrainStep nat
  | ProgressLog stats string int
  | ResetMeters string
  | BeginValidEpoch int
  | ValidStep nat
  | ProgressPrint stats string int
  | SaveCheckpoint int pyval
  | Barrier
  | LrStep int pyval
  | DoneTraining

text \<open>
  The process state: the trainer's two iterators and its update counter, the metrics
  contexts (per context name, the scalars logged into it), the elapsed time of the wall
  clock meter, the attribute \<^verbatim>\<open>get_valid_stats.best\<close> (\<open>None\<close> while the function
  object has no such attribute), the checkpoint directory, whether
  \<^verbatim>\<open>torch.distributed\<close> is initialised, and the trace of side effects, newest first.
\<close>

record world =
  iterator :: "batch list"
  valid_iterator :: "(string \<times> pyval) list list"
  num_updates :: int
  meters :: "string \<Rightarrow> (string \<times> pyval) list"
  wall :: real
  best :: "pyval option"
  checkpoints :: "ckpt_name \<Rightarrow> run option"
  dist_initialized :: bool
  trace :: "event list"

definition emit :: "event \<Rightarrow> world \<Rightarrow> world" where
  "emit e w = w\<lparr>trace := e # trace w\<rparr>"

section \<open>Collaborators that train.py calls\<close>

text \<open>
  The smoothing of a context's logged scalars into one value per key is a parameter
  \<open>sm\<close> of the model: the meters are not part of \<^verbatim>\<open>train.py\<close>.
\<close>

type_synonym smooth = "(string \<times> pyval) list \<Rightarrow> stats"

text \<open>
  Modelled from the spec: \<^verbatim>\<open>get_smoothed_values\<close> of the metrics module, which is
  missing from the sources. A context with no entries gives the empty mapping.
\<close>

definition get_smoothed_values :: "smooth \<Rightarrow> (string \<times> pyval) list \<Rightarrow> stats" where
  "get_smoothed_values sm entries = (if entries = [] then Map.empty else sm entries)"

text \<open>
  Modelled from the spec: \<^verbatim>\<open>metrics.log_scalar\<close>, missing from the sources. A value
  is recorded into every active context.
\<close>

definition log_scalars ::
  "string list \<Rightarrow> (string \<times> pyval) list \<Rightarrow> (string \<Rightarrow> (string \<times> pyval) list)
     \<Rightarrow> (string \<Rightarrow> (string \<times> pyval) list)" where
  "log_scalars active kvs m = (\<lambda>c. if c \<in> set active then m c @ kvs else m c)"

text \<open>
  Modelled from the spec: \<^verbatim>\<open>metrics.reset_meters\<close>, missing from the sources. It
  clears one named context and leaves the others.
\<close>

definition reset_meters :: "string \<Rightarrow> world \<Rightarrow> world" where
  "reset_meters name w = emit (ResetMeters name) (w\<lparr>meters := (meters w)(name := [])\<rparr>)"

text \<open>
  Modelled from the spec: \<^verbatim>\<open>Trainer.train_step\<close>, missing from the sources. An
  overflow, out-of-memory or NaN step is caught inside and returns the skip value
  \<open>None\<close>, leaving the update counter and the meters alone; any other step increments
  \<open>num_updates\<close>, logs its scalars into the active contexts and returns its log output.
\<close>

definition train_step :: "string list \<Rightarrow> batch \<Rightarrow> world \<Rightarrow> stats option \<times> world" where
  "train_step active b w =
     (if overflow b then (None, w)
      else (Some (map_of (scalars b)),
            w\<lparr>num_updates := num_updates w + 1,
              meters := log_scalars active (scalars b) (meters w)\<rparr>))"

text \<open>
  Modelled from the spec: \<^verbatim>\<open>checkpoint_utils.save_checkpoint\<close>, missing from the
  sources. On the master worker it writes the Run snapshot under the epoch's name when
  the epoch is divisible by \<open>save_interval\<close>, and under the best alias when the
  validation score is not below the running best score.
\<close>

definition save_checkpoint :: "args \<Rightarrow> int \<Rightarrow> pyval \<Rightarrow> world \<Rightarrow> (error + unit) \<times> world" where
  "save_checkpoint a ep valid_score w =
     (let w1 = emit (SaveCheckpoint ep valid_score) w;
          snap = \<lparr>run_epoch = ep, run_num_updates = num_updates w1, run_best_score = best w1\<rparr>
      in if \<not> is_master a then (Inr (), w1)
         else
           (let w2 = (if save_interval a dvd ep
                      then w1\<lparr>checkpoints := (checkpoints w1)(EpochCkpt ep \<mapsto> snap)\<rparr>
                      else w1)
            in case best w2 of
                 None \<Rightarrow> (Inr (), w2\<lparr>checkpoints := (checkpoints w2)(BestCkpt \<mapsto> snap)\<rparr>)
               | Some b \<Rightarrow>
                   (case py_gt b valid_score of
                      Inl e \<Rightarrow> (Inl e, w2)
                    | Inr below \<Rightarrow>
                        (Inr (),
                         if below then w2
                         else w2\<lparr>checkpoints := (checkpoints w2)(BestCkpt \<mapsto> snap)\<rparr>))))"

text \<open>
  Modelled from the spec: \<^verbatim>\<open>checkpoint_utils.load_checkpoint\<close>, missing from the
  sources. It reads the Run snapshot stored under a name.
\<close>

definition load_checkpoint :: "ckpt_name \<Rightarrow> world \<Rightarrow> error + run" where
  "load_checkpoint name w =
     (case checkpoints w name of None \<Rightarrow> Inl FileNotFoundError | Some r \<Rightarrow> Inr r)"

section \<open>train.py\<close>

text \<open>
  \<^verbatim>\<open>get_valid_stats\<close>: stores \<open>num_updates\<close>, creates the attribute \<open>best\<close> with 0
  when the function object has none, and replaces it by the maximum of the statistic
  \<open>auroc\<close> and the previous best.
\<close>

definition get_valid_stats :: "world \<Rightarrow> stats \<Rightarrow> (error + stats) \<times> world" where
  "get_valid_stats w st =
     (let st1 = st(''num_updates'' \<mapsto> PyNum (of_int (num_updates w)));
          w1 = (if best w = None then w\<lparr>best := Some (PyNum 0)\<rparr> else w);
          prev_best = (case best w of None \<Rightarrow> PyNum 0 | Some b \<Rightarrow> b)
      in case st1 ''auroc'' of
           None \<Rightarrow> (Inl KeyError, w1)
         | Some auroc \<Rightarrow>
             (case py_max auroc prev_best of
                Inl e \<Rightarrow> (Inl e, w1)
              | Inr m \<Rightarrow> (Inr (st1(''best_auroc'' \<mapsto> m)), w1\<lparr>best := Some m\<rparr>)))"

text \<open>
  \<^verbatim>\<open>get_training_stats\<close>: adds the elapsed time of the wall clock meter, rounded, to
  the stats.
\<close>

definition get_training_stats :: "world \<Rightarrow> stats \<Rightarrow> stats" where
  "get_training_stats w st = st(''wall'' \<mapsto> PyNum (of_int (py_round (wall w))))"

text \<open>
  \<^verbatim>\<open>validate\<close>: one pass over the validation iterator inside a new root aggregation
  context, then \<^verbatim>\<open>get_valid_stats\<close>, the print with tag \<open>valid\<close>, and the return of
  \<^verbatim>\<open>stats["auroc"]\<close>. The trainer has no \<^verbatim>\<open>post_validate\<close>.
\<close>

definition validate :: "smooth \<Rightarrow> args \<Rightarrow> int \<Rightarrow> world \<Rightarrow> (error + pyval) \<times> world" where
  "validate sm a ep w =
     (let w1 = emit (BeginValidEpoch ep) w;
          w2 = w1\<lparr>trace := rev (map ValidStep [0..<length (valid_iterator w1)]) @ trace w1\<rparr>;
          agg = concat (valid_iterator w2)
      in case get_valid_stats w2 (get_smoothed_values sm agg) of
           (Inl e, w3) \<Rightarrow> (Inl e, w3)
         | (Inr st, w3) \<Rightarrow>
             (let w4 = emit (ProgressPrint st ''valid'' (num_updates w3)) w3
              in case st ''auroc'' of
                   None \<Rightarrow> (Inl KeyError, w4)
                 | Some v \<Rightarrow> (Inr v, w4)))"

text \<open>
  The body of the batch loop of \<^verbatim>\<open>train\<close>, for the batch with index \<open>i\<close>. The locals
  are \<open>num_updates\<close> and \<open>valid_loss\<close>; \<open>valid_loss\<close> is \<open>None\<close> while it is unbound.
\<close>

definition train_body ::
  "smooth \<Rightarrow> args \<Rightarrow> int \<Rightarrow> nat \<Rightarrow> batch \<Rightarrow> int \<times> pyval option \<Rightarrow> world
     \<Rightarrow> (error + int \<times> pyval option) \<times> world" where
  "train_body sm a ep i b loc w =
     (case train_step [''train'', ''train_inner''] b (emit (TrainStep i) w) of
        (None, w1) \<Rightarrow> (Inr loc, w1)
      | (Some log_output, w1) \<Rightarrow>
          (let n = num_updates w1 in
           if log_interval a = 0 then (Inl ZeroDivisionError, w1)
           else
             (let w2 = (if n mod log_interval a = 0
                        then reset_meters ''train_inner''
                               (emit (ProgressLog
                                        (get_training_stats w1
                                           (get_smoothed_values sm (meters w1 ''train_inner'')))
                                        ''train_inner'' n) w1)
                        else w1)
              in case validate sm a ep w2 of
                   (Inl e, w3) \<Rightarrow> (Inl e, w3)
                 | (Inr valid_loss, w3) \<Rightarrow>
                     (case save_checkpoint a ep valid_loss w3 of
                        (Inl e, w4) \<Rightarrow> (Inl e, w4)
                      | (Inr u, w4) \<Rightarrow>
                          (Inr (n, Some valid_loss),
                           if dist_initialized w4 then emit Barrier w4 else w4)))))"

fun train_loop ::
  "smooth \<Rightarrow> args \<Rightarrow> int \<Rightarrow> nat \<Rightarrow> batch list \<Rightarrow> int \<times> pyval option \<Rightarrow> world
     \<Rightarrow> (error + int \<times> pyval option) \<times> world" where
  "train_loop sm a ep i [] loc w = (Inr loc, w)"
| "train_loop sm a ep i (b # bs) loc w =
     (case train_body sm a ep i b loc w of
        (Inl e, w1) \<Rightarrow> (Inl e, w1)
      | (Inr loc1, w1) \<Rightarrow> train_loop sm a ep (Suc i) bs loc1 w1)"

text \<open>
  \<^verbatim>\<open>train\<close>: begins the epoch, runs the batch loop, prints the end-of-epoch stats
  with tag \<open>train\<close>, resets the epoch-level meters and returns \<open>valid_loss\<close>, which is
  unbound when no iteration assigned it.
\<close>

definition train :: "smooth \<Rightarrow> args \<Rightarrow> int \<Rightarrow> world \<Rightarrow> (error + pyval) \<times> world" where
  "train sm a ep w =
     (let w0 = emit (BeginEpoch ep) w in
      case train_loop sm a ep 0 (iterator w0) (num_updates w0, None) w0 of
        (Inl e, w1) \<Rightarrow> (Inl e, w1)
      | (Inr (n, valid_loss), w1) \<Rightarrow>
          (let st = get_training_stats w1 (get_smoothed_values sm (meters w1 ''train''));
               w2 = reset_meters ''train'' (emit (ProgressPrint st ''train'' n) w1)
           in case valid_loss of
                None \<Rightarrow> (Inl UnboundLocalError, w2)
              | Some v \<Rightarrow> (Inr v, w2)))"

text \<open>
  The body of the epoch loop of \<^verbatim>\<open>main\<close>: one epoch of \<^verbatim>\<open>train\<close>, then
  \<^verbatim>\<open>trainer.lr_step\<close> with the epoch and element 0 of what \<^verbatim>\<open>train\<close> returned.
  The loop variable \<open>epoch_idx\<close> is never assigned in the body.
\<close>

definition main_body :: "smooth \<Rightarrow> args \<Rightarrow> int \<Rightarrow> world \<Rightarrow> (error + unit) \<times> world" where
  "main_body sm a epoch_idx w =
     (case train sm a epoch_idx w of
        (Inl e, w1) \<Rightarrow> (Inl e, w1)
      | (Inr valid_losses, w1) \<Rightarrow>
          (case py_getitem0 valid_losses of
             Inl e \<Rightarrow> (Inl e, w1)
           | Inr v \<Rightarrow> (Inr (), emit (LrStep epoch_idx v) w1)))"

text \<open>
  The epoch loop of \<^verbatim>\<open>main\<close>, with fuel: \<open>None\<close> is a loop that is still running
  when the fuel is used up.
\<close>

fun main_loop ::
  "nat \<Rightarrow> smooth \<Rightarrow> args \<Rightarrow> int \<Rightarrow> world \<Rightarrow> ((error + unit) \<times> world) option" where
  "main_loop 0 sm a epoch_idx w = None"
| "main_loop (Suc fuel) sm a epoch_idx w =
     (if epoch_idx \<le> max_epoch a then
        (case main_body sm a epoch_idx w of
           (Inl e, w1) \<Rightarrow> Some (Inl e, w1)
         | (Inr u, w1) \<Rightarrow> main_loop fuel sm a epoch_idx w1)
      else Some (Inr (), emit DoneTraining w))"

text \<open>
  A process that has just started: \<^verbatim>\<open>metrics.reset()\<close> has cleared the meters, no
  update has been made, and \<^verbatim>\<open>get_valid_stats\<close> has no attribute \<open>best\<close>. The
  checkpoint directory is what earlier processes left.
\<close>

definition fresh_process ::
  "batch list \<Rightarrow> (string \<times> pyval) list list \<Rightarrow> (ckpt_name \<Rightarrow> run option) \<Rightarrow> bool \<Rightarrow> world" where
  "fresh_process it vit store ddp =
     \<lparr>iterator = it, valid_iterator = vit, num_updates = 0, meters = (\<lambda>c. []), wall = 0,
      best = None, checkpoints = store, dist_initialized = ddp, trace = []\<rparr>"

text \<open>
  \<^verbatim>\<open>main\<close>: the epoch loop from \<open>epoch_idx = 1\<close> in a process that has just started.
  What \<^verbatim>\<open>main\<close> does before the loop (the seeds, the check of the checkpoint
  directory, building the model, the dataset and the trainer, the call of
  \<^verbatim>\<open>breakpoint()\<close>) is taken to succeed and leaves no event.
\<close>

definition main ::
  "nat \<Rightarrow> smooth \<Rightarrow> args \<Rightarrow> batch list \<Rightarrow> (string \<times> pyval) list list
     \<Rightarrow> (ckpt_name \<Rightarrow> run option) \<Rightarrow> bool \<Rightarrow> ((error + unit) \<times> world) option" where
  "main fuel sm a it vit store ddp = main_loop fuel sm a 1 (fresh_process it vit store ddp)"

section \<open>Concrete inputs\<close>

text \<open>A smoothing that reports the value logged last under each key.\<close>

definition last_value :: smooth where
  "last_value entries = map_of (rev entries)"

text \<open>One epoch, the default log interval, a checkpoint at every epoch, on the master.\<close>

definition example_args :: args where
  "example_args = \<lparr>max_epoch = 1, log_interval = 50, save_interval = 1, is_master = True\<rparr>"

text \<open>
  A single-worker process whose validation pass logs the given \<open>auroc\<close> value once,
  with the given training batches.
\<close>

definition example_world :: "batch list \<Rightarrow> pyval \<Rightarrow> world" where
  "example_world it auroc = fresh_process it [[(''auroc'', auroc)]] Map.empty False"

section \<open>Properties in the words of the specification\<close>

text \<open>
  The values of \<open>best_auroc\<close> that successive calls of \<^verbatim>\<open>get_valid_stats\<close> report
  for a sequence of \<open>auroc\<close> values (\<open>None\<close> for a call that raises).
\<close>

fun best_aurocs :: "world \<Rightarrow> pyval list \<Rightarrow> pyval option list" where
  "best_aurocs w [] = []"
| "best_aurocs w (x # xs) =
     (case get_valid_stats w [''auroc'' \<mapsto> x] of
        (Inl e, w1) \<Rightarrow> None # best_aurocs w1 xs
      | (Inr st, w1) \<Rightarrow> st ''best_auroc'' # best_aurocs w1 xs)"

text \<open>The running maximum of a sequence: at each position, the greatest value so far.\<close>

definition running_max :: "real list \<Rightarrow> real list" where
  "running_max xs = map (\<lambda>k. Max (set (take (Suc k) xs))) [0..<length xs]"

text \<open>The same with a baseline \<open>m\<close> carried along, as the attribute \<open>best\<close> is.\<close>

fun max_from :: "real \<Rightarrow> real list \<Rightarrow> real list" where
  "max_from m [] = []"
| "max_from m (x # xs) = max x m # max_from (max x m) xs"

text \<open>
  A process in which every epoch of the example repeats: one batch that trains, and a
  validation pass that reports \<open>auroc\<close> as a one-element tensor.
\<close>

definition repeats :: "world \<Rightarrow> bool" where
  "repeats w \<longleftrightarrow> iterator w = [Batch False []]
     \<and> valid_iterator w = [[(''auroc'', PyTensor [7/10])]]
     \<and> (best w = None \<or> best w = Some (PyTensor [7/10]))"


text \<open>The \<open>best_auroc\<close> entry that a call of \<^verbatim>\<open>get_valid_stats\<close> reports.\<close>

definition reported_best :: "(error + stats) \<times> world \<Rightarrow> pyval option" where
  "reported_best r = (case fst r of Inl e \<Rightarrow> None | Inr st \<Rightarrow> st ''best_auroc'')"

text \<open>
  A restart: a process that has just started over the checkpoint directory that the
  process \<open>w\<close> left. \<^verbatim>\<open>main\<close> calls no \<^verbatim>\<open>load_checkpoint\<close>, and nothing else
  in \<^verbatim>\<open>train.py\<close> writes the attribute \<^verbatim>\<open>get_valid_stats.best\<close>.
\<close>

definition restarted :: "batch list \<Rightarrow> (string \<times> pyval) list list \<Rightarrow> world \<Rightarrow> world" where
  "restarted it vit w = fresh_process it vit (checkpoints w) (dist_initialized w)"

text \<open>
  A process that has made 120 updates and reached the best score 0.8, after saving the
  checkpoint of epoch 1.
\<close>

definition saved_world :: world where
  "saved_world = snd (save_checkpoint example_args 1 (PyNum (8/10))
     ((fresh_process [] [] Map.empty False)\<lparr>num_updates := 120, best := Some (PyNum (8/10))\<rparr>))"

section \<open>The events of one training step\<close>

text \<open>The world after \<^verbatim>\<open>train_step\<close> on the batch with index \<open>i\<close>.\<close>

definition after_step :: "nat \<Rightarrow> batch \<Rightarrow> world \<Rightarrow> world" where
  "after_step i b w = snd (train_step [''train'', ''train_inner''] b (emit (TrainStep i) w))"

text \<open>The world after the mid-epoch log, which is made when the interval divides the step.\<close>

definition after_log :: "smooth \<Rightarrow> args \<Rightarrow> world \<Rightarrow> world" where
  "after_log sm a w1 =
     (if num_updates w1 mod log_interval a = 0
      then reset_meters ''train_inner''
             (emit (ProgressLog
                      (get_training_stats w1
                         (get_smoothed_values sm (meters w1 ''train_inner'')))
                      ''train_inner'' (num_updates w1)) w1)
      else w1)"

text \<open>The number of events of a kind in a trace, and the kinds that are counted.\<close>

definition count_events :: "(event \<Rightarrow> bool) \<Rightarrow> event list \<Rightarrow> nat" where
  "count_events P tr = length (filter P tr)"

definition is_validate :: "event \<Rightarrow> bool" where
  "is_validate e = (case e of BeginValidEpoch ep \<Rightarrow> True | _ \<Rightarrow> False)"

definition is_save :: "event \<Rightarrow> bool" where
  "is_save e = (case e of SaveCheckpoint ep v \<Rightarrow> True | _ \<Rightarrow> False)"

text \<open>The number of batches of an iterator whose step is not skipped.\<close>

definition trained :: "batch list \<Rightarrow> nat" where
  "trained bs = length (filter (\<lambda>b. \<not> overflow b) bs)"

text \<open>The batch loop of the epoch runs to its end: no iteration raises.\<close>

definition epoch_loop_ok :: "smooth \<Rightarrow> args \<Rightarrow> int \<Rightarrow> world \<Rightarrow> bool" where
  "epoch_loop_ok sm a ep w =
     (case fst (train_loop sm a ep 0 (iterator w) (num_updates w, None) (emit (BeginEpoch ep) w))
      of Inl e \<Rightarrow> False | Inr loc \<Rightarrow> True)"

text \<open>
  What an epoch may change in the checkpoint directory: of the epoch-named checkpoints
  only its own, and only on the master and when \<open>save_interval\<close> divides the epoch.
\<close>

definition epoch_checkpoints :: "args \<Rightarrow> int \<Rightarrow> world \<Rightarrow> world \<Rightarrow> bool" where
  "epoch_checkpoints a ep w w' =
     (\<forall>e. checkpoints w' (EpochCkpt e) = checkpoints w (EpochCkpt e)
          \<or> (e = ep \<and> save_interval a dvd ep \<and> is_master a))"

text \<open>
  The events of a step that is not skipped and raises nothing, newest first: the step,
  the mid-epoch log with its reset, the validation pass and its print, the call of
  \<^verbatim>\<open>save_checkpoint\<close>, and the barrier when \<^verbatim>\<open>torch.distributed\<close> is initialised.
\<close>

definition log_events :: "smooth \<Rightarrow> args \<Rightarrow> world \<Rightarrow> event list" where
  "log_events sm a w1 =
     (if num_updates w1 mod log_interval a = 0
      then [ResetMeters ''train_inner'',
            ProgressLog (get_training_stats w1
                           (get_smoothed_values sm (meters w1 ''train_inner'')))
              ''train_inner'' (num_updates w1)]
      else [])"

definition valid_events :: "int \<Rightarrow> nat \<Rightarrow> event list" where
  "valid_events ep k = rev (map ValidStep [0..<k]) @ [BeginValidEpoch ep]"

definition step_events ::
  "smooth \<Rightarrow> args \<Rightarrow> int \<Rightarrow> nat \<Rightarrow> world \<Rightarrow> stats \<Rightarrow> pyval \<Rightarrow> event list" where
  "step_events sm a ep i w1 st v =
     (if dist_initialized w1 then [Barrier] else [])
     @ [SaveCheckpoint ep v, ProgressPrint st ''valid'' (num_updates w1)]
     @ valid_events ep (length (valid_iterator w1))
     @ log_events sm a w1 @ [TrainStep i]"

text \<open>What no function of the model changes.\<close>

definition same_config :: "world \<Rightarrow> world \<Rightarrow> bool" where
  "same_config w w' \<longleftrightarrow> iterator w' = iterator w \<and> valid_iterator w' = valid_iterator w
     \<and> dist_initialized w' = dist_initialized w"

section \<open>The order of validation, checkpoint and barrier\<close>

definition is_barrier :: "event \<Rightarrow> bool" where
  "is_barrier e = (case e of Barrier \<Rightarrow> True | _ \<Rightarrow> False)"

definition is_valid_print :: "event \<Rightarrow> bool" where
  "is_valid_print e = (case e of ProgressPrint st tag n \<Rightarrow> tag = ''valid'' | _ \<Rightarrow> False)"

text \<open>
  The order in the words of the specification, on a trace with the newest event first:
  going back from a call of \<^verbatim>\<open>save_checkpoint\<close>, a barrier is met before the print of
  a validation is.
\<close>

fun barrier_since_validation :: "event list \<Rightarrow> bool" where
  "barrier_since_validation [] = False"
| "barrier_since_validation (e # es) =
     (if is_barrier e then True
      else if is_valid_print e then False
      else barrier_since_validation es)"

fun saves_after_barrier :: "event list \<Rightarrow> bool" where
  "saves_after_barrier [] = True"
| "saves_after_barrier (e # es) =
     ((if is_save e then barrier_since_validation es else True) \<and> saves_after_barrier es)"

text \<open>
  The order of the code: what comes right before a barrier is a call of
  \<^verbatim>\<open>save_checkpoint\<close>, and what comes right before such a call is the print of a
  validation.
\<close>

fun save_then_barrier :: "event list \<Rightarrow> bool" where
  "save_then_barrier [] = True"
| "save_then_barrier [e] = (\<not> is_barrier e \<and> \<not> is_save e)"
| "save_then_barrier (e # e' # es) =
     ((if is_barrier e then is_save e' else True)
      \<and> (if is_save e then is_valid_print e' else True)
      \<and> save_then_barrier (e' # es))"

section \<open>The cadence of the progress reports\<close>

text \<open>The mid-epoch log, the reset of its meters, and the end-of-epoch summary.\<close>

definition is_inner_log :: "event \<Rightarrow> bool" where
  "is_inner_log e = (case e of ProgressLog st tag n \<Rightarrow> tag = ''train_inner'' | _ \<Rightarrow> False)"

definition is_inner_reset :: "event \<Rightarrow> bool" where
  "is_inner_reset e = (case e of ResetMeters name \<Rightarrow> name = ''train_inner'' | _ \<Rightarrow> False)"

definition is_epoch_print :: "event \<Rightarrow> bool" where
  "is_epoch_print e = (case e of ProgressPrint st tag n \<Rightarrow> tag = ''train'' | _ \<Rightarrow> False)"

text \<open>
  On a trace with the newest event first: every mid-epoch log has the reset of the
  \<open>train_inner\<close> meters as the next event after it.
\<close>

fun reset_follows :: "event \<Rightarrow> event list \<Rightarrow> bool" where
  "reset_follows newer [] = True"
| "reset_follows newer (e # es) =
     ((if is_inner_log e then is_inner_reset newer else True) \<and> reset_follows e es)"

definition log_then_reset :: "event list \<Rightarrow> bool" where
  "log_then_reset tr =
     (case tr of [] \<Rightarrow> True | e # es \<Rightarrow> \<not> is_inner_log e \<and> reset_follows e es)"

text \<open>The steps at which mid-epoch stats were logged, newest first.\<close>

fun logged_steps :: "event list \<Rightarrow> int list" where
  "logged_steps [] = []"
| "logged_steps (e # es) =
     (case e of
        ProgressLog st tag n \<Rightarrow>
          if tag = ''train_inner'' then n # logged_steps es else logged_steps es
      | _ \<Rightarrow> logged_steps es)"

section \<open>Evaluation and basic facts\<close>

lemmas eval_defs = train_def train_body_def train_step_def validate_def get_valid_stats_def
  get_training_stats_def get_smoothed_values_def save_checkpoint_def reset_meters_def emit_def
  log_scalars_def py_max_def py_round_def fresh_process_def last_value_def example_args_def
  example_world_def Let_def

lemma train_body_skip:
  "overflow b \<Longrightarrow> train_body sm a ep i b loc w = (Inr loc, emit (TrainStep i) w)"
  by (simp add: train_body_def train_step_def)

lemma train_loop_all_skipped:
  "\<forall>b\<in>set bs. overflow b \<Longrightarrow> fst (train_loop sm a ep i bs loc w) = Inr loc"
  by (induction bs arbitrary: i w) (simp_all add: train_body_skip)

lemma validate_ok:
  assumes "validate sm a ep w = (Inr v, w')"
  shows "\<exists>st. trace w' = ProgressPrint st ''valid'' (num_updates w)
                  # valid_events ep (length (valid_iterator w)) @ trace w
              \<and> st ''auroc'' = Some v"
    and "num_updates w' = num_updates w" and "same_config w w'"
    and "checkpoints w' = checkpoints w" and "meters w' = meters w"
  using assms
  by (auto simp: validate_def get_valid_stats_def emit_def Let_def valid_events_def same_config_def
      split: prod.splits sum.splits option.splits if_splits)

lemma save_checkpoint_frame:
  "trace (snd (save_checkpoint a ep v w)) = SaveCheckpoint ep v # trace w"
  "num_updates (snd (save_checkpoint a ep v w)) = num_updates w"
  "same_config w (snd (save_checkpoint a ep v w))"
  "best (snd (save_checkpoint a ep v w)) = best w"
  "meters (snd (save_checkpoint a ep v w)) = meters w"
  by (simp_all add: save_checkpoint_def emit_def Let_def same_config_def
      split: option.splits sum.splits)

lemma train_body_ok:
  assumes "\<not> overflow b" and "train_body sm a ep i b loc w = (Inr loc', w')"
  shows "\<exists>st v w1. loc' = (num_updates w + 1, Some v)
           \<and> trace w' = step_events sm a ep i w1 st v @ trace w
           \<and> num_updates w1 = num_updates w + 1 \<and> same_config w w1
           \<and> meters w1 ''train_inner'' = meters w ''train_inner'' @ scalars b"
    and "num_updates w' = num_updates w + 1" and "same_config w w'"
    and "log_interval a \<noteq> 0"
proof -
  define w1 where "w1 = snd (train_step [''train'', ''train_inner''] b (emit (TrainStep i) w))"
  define w2 where "w2 = (if num_updates w1 mod log_interval a = 0
       then reset_meters ''train_inner''
              (emit (ProgressLog (get_training_stats w1
                  (get_smoothed_values sm (meters w1 ''train_inner'')))
                 ''train_inner'' (num_updates w1)) w1)
       else w1)"
  have w1: "trace w1 = TrainStep i # trace w" "num_updates w1 = num_updates w + 1"
    "same_config w w1" "meters w1 ''train_inner'' = meters w ''train_inner'' @ scalars b"
    using assms(1)
    by (simp_all add: w1_def train_step_def emit_def same_config_def log_scalars_def)
  have w2: "trace w2 = log_events sm a w1 @ trace w1" "num_updates w2 = num_updates w1"
    "same_config w1 w2"
    by (simp_all add: w2_def log_events_def reset_meters_def emit_def same_config_def)
  from assms obtain v w3 where
    li: "log_interval a \<noteq> 0" and
    val: "validate sm a ep w2 = (Inr v, w3)" and
    rest: "(case save_checkpoint a ep v w3 of
              (Inl e, w4) \<Rightarrow> (Inl e, w4)
            | (Inr u, w4) \<Rightarrow> (Inr (num_updates w1, Some v),
                 if dist_initialized w4 then emit Barrier w4 else w4)) = (Inr loc', w')"
    unfolding train_body_def w1_def w2_def train_step_def
    by (auto simp: Let_def split: if_splits prod.splits sum.splits)
  from rest obtain u w4 where
    sv: "save_checkpoint a ep v w3 = (Inr u, w4)" and
    loc': "loc' = (num_updates w1, Some v)" and
    w': "w' = (if dist_initialized w4 then emit Barrier w4 else w4)"
    by (auto split: prod.splits sum.splits)
  from validate_ok [OF val] obtain st where
    w3: "trace w3 = ProgressPrint st ''valid'' (num_updates w2)
                  # valid_events ep (length (valid_iterator w2)) @ trace w2"
      "num_updates w3 = num_updates w2" "same_config w2 w3"
    by blast
  from sv save_checkpoint_frame [where a = a and ep = ep and v = v and w = w3] have
    w4: "trace w4 = SaveCheckpoint ep v # trace w3" "num_updates w4 = num_updates w3"
      "same_config w3 w4"
    by simp_all
  have frame: "same_config w w4"
    using w1(3) w2(3) w3(3) w4(3) by (simp add: same_config_def)
  have tr: "trace w' = step_events sm a ep i w1 st v @ trace w"
    using w1 w2 w3 w4 w' by (simp add: step_events_def emit_def same_config_def)
  show "\<exists>st v w1. loc' = (num_updates w + 1, Some v)
           \<and> trace w' = step_events sm a ep i w1 st v @ trace w
           \<and> num_updates w1 = num_updates w + 1 \<and> same_config w w1
           \<and> meters w1 ''train_inner'' = meters w ''train_inner'' @ scalars b"
    using tr loc' w1 by blast
  show "num_updates w' = num_updates w + 1"
    using w1 w2 w3 w4 w' by (simp add: emit_def)
  show "same_config w w'"
    using frame w' by (simp add: same_config_def emit_def)
  show "log_interval a \<noteq> 0" by (rule li)
qed

lemma count_events_simps:
  "count_events P [] = 0"
  "count_events P (e # es) = (if P e then Suc (count_events P es) else count_events P es)"
  "count_events P (xs @ ys) = count_events P xs + count_events P ys"
  by (simp_all add: count_events_def)

lemma train_after_loop:
  assumes "epoch_loop_ok sm a ep w"
  shows "\<exists>loc w1 st.
           train_loop sm a ep 0 (iterator w) (num_updates w, None) (emit (BeginEpoch ep) w)
             = (Inr loc, w1)
         \<and> trace (snd (train sm a ep w))
             = ResetMeters ''train'' # ProgressPrint st ''train'' (fst loc) # trace w1
         \<and> checkpoints (snd (train sm a ep w)) = checkpoints w1"
proof -
  obtain r w1 where run:
    "train_loop sm a ep 0 (iterator w) (num_updates w, None) (emit (BeginEpoch ep) w) = (r, w1)"
    by (cases "train_loop sm a ep 0 (iterator w) (num_updates w, None) (emit (BeginEpoch ep) w)")
  with assms obtain loc where r: "r = Inr loc"
    by (auto simp: epoch_loop_ok_def split: sum.splits)
  obtain n vl where loc: "loc = (n, vl)" by (cases loc)
  have "trace (snd (train sm a ep w))
          = ResetMeters ''train''
            # ProgressPrint (get_training_stats w1 (get_smoothed_values sm (meters w1 ''train'')))
                ''train'' (fst loc) # trace w1
        \<and> checkpoints (snd (train sm a ep w)) = checkpoints w1"
    using run r loc
    by (simp add: train_def emit_def reset_meters_def Let_def split: option.splits)
  with run r show ?thesis by blast
qed

lemma train_body_trained:
  "\<not> overflow b \<Longrightarrow>
   train_body sm a ep i b loc w =
     (if log_interval a = 0 then (Inl ZeroDivisionError, after_step i b w)
      else (case validate sm a ep (after_log sm a (after_step i b w)) of
              (Inl e, w3) \<Rightarrow> (Inl e, w3)
            | (Inr v, w3) \<Rightarrow>
                (case save_checkpoint a ep v w3 of
                   (Inl e, w4) \<Rightarrow> (Inl e, w4)
                 | (Inr u, w4) \<Rightarrow>
                     (Inr (num_updates (after_step i b w), Some v),
                      if dist_initialized w4 then emit Barrier w4 else w4))))"
  unfolding train_body_def after_step_def after_log_def train_step_def Let_def
  by (simp only: if_False prod.case option.case snd_conv)

lemma count_valid_events:
  "count_events is_validate (valid_events ep k) = 1"
  "count_events is_save (valid_events ep k) = 0"
  by (simp_all add: count_events_def valid_events_def is_validate_def is_save_def
      filter_map comp_def)

lemma count_log_events:
  "count_events is_validate (log_events sm a w) = 0"
  "count_events is_save (log_events sm a w) = 0"
  by (simp_all add: count_events_def log_events_def is_validate_def is_save_def)

lemma count_step_events:
  "count_events is_validate (step_events sm a ep i w1 st v) = 1"
  "count_events is_save (step_events sm a ep i w1 st v) = 1"
  by (simp_all add: step_events_def count_events_simps count_valid_events count_log_events
      is_validate_def is_save_def)

lemma train_loop_counts:
  assumes "train_loop sm a ep i bs loc w = (Inr loc', w')"
  shows "count_events is_validate (trace w') = count_events is_validate (trace w) + trained bs
       \<and> count_events is_save (trace w') = count_events is_save (trace w) + trained bs"
  using assms
proof (induction bs arbitrary: i loc w)
  case Nil
  then show ?case by (simp add: trained_def)
next
  case (Cons b bs)
  from Cons.prems obtain loc1 w1 where
    body: "train_body sm a ep i b loc w = (Inr loc1, w1)" and
    tl: "train_loop sm a ep (Suc i) bs loc1 w1 = (Inr loc', w')"
    by (auto split: prod.splits sum.splits)
  note IH = Cons.IH [OF tl]
  show ?case
  proof (cases "overflow b")
    case True
    with body have "trace w1 = TrainStep i # trace w"
      by (auto simp: train_body_skip emit_def)
    with IH True show ?thesis
      by (simp add: trained_def count_events_simps is_validate_def is_save_def)
  next
    case False
    from train_body_ok(1) [OF False body] obtain st v w0 where
      "trace w1 = step_events sm a ep i w0 st v @ trace w" by blast
    with IH False show ?thesis
      by (simp add: trained_def count_events_simps count_step_events)
  qed
qed

section \<open>An epoch without a logged step\<close>

text \<open>
  Claim C8. \<^verbatim>\<open>train\<close> returns a value only when at least one \<^verbatim>\<open>train_step\<close> of the
  epoch returns a log output: when the iterator yields no batch, or every step is
  skipped, \<^verbatim>\<open>train\<close> prints the end-of-epoch stats, resets the epoch meters and then
  fails with an unbound-local error at \<^verbatim>\<open>return valid_loss\<close>.
\<close>

theorem train_unbound_valid_loss:
  "((\<forall>b\<in>set (iterator w). overflow b) \<longrightarrow>
      fst (train sm a ep w) = Inl UnboundLocalError
      \<and> (\<exists>st n tr. trace (snd (train sm a ep w))
             = ResetMeters ''train'' # ProgressPrint st ''train'' n # tr))
   \<and> (\<forall>v. fst (train sm a ep w) = Inr v \<longrightarrow> (\<exists>b\<in>set (iterator w). \<not> overflow b))"
proof -
  have skipped: "fst (train sm a ep w) = Inl UnboundLocalError
      \<and> (\<exists>st n tr. trace (snd (train sm a ep w))
             = ResetMeters ''train'' # ProgressPrint st ''train'' n # tr)"
    if all: "\<forall>b\<in>set (iterator w). overflow b"
  proof -
    let ?w0 = "emit (BeginEpoch ep) w"
    obtain r w1 where run:
      "train_loop sm a ep 0 (iterator ?w0) (num_updates ?w0, None) ?w0 = (r, w1)"
      by (cases "train_loop sm a ep 0 (iterator ?w0) (num_updates ?w0, None) ?w0")
    have "iterator ?w0 = iterator w" by (simp add: emit_def)
    with all have "\<forall>b\<in>set (iterator ?w0). overflow b" by simp
    from train_loop_all_skipped [OF this, of sm a ep 0 "(num_updates ?w0, None)" ?w0] run
    have r: "r = Inr (num_updates ?w0, None)" by simp
    show ?thesis
      using run r by (simp add: train_def Let_def reset_meters_def emit_def)
  qed
  then show ?thesis by fastforce
qed

theorem train_unbound_valid_loss_witness:
  "list_all overflow (iterator (example_world [] (PyNum (7/10))))
   \<and> fst (train last_value example_args 1 (example_world [] (PyNum (7/10))))
       = Inl UnboundLocalError
   \<and> list_all overflow
        (iterator (example_world [Batch True [], Batch True []] (PyNum (7/10))))
   \<and> fst (train last_value example_args 1
            (example_world [Batch True [], Batch True []] (PyNum (7/10))))
       = Inl UnboundLocalError
   \<and> fst (train last_value example_args 1
            (example_world [Batch True [], Batch False []] (PyNum (7/10))))
       = Inr (PyNum (7/10))
   \<and> (\<exists>b\<in>set (iterator (example_world [Batch True [], Batch False []] (PyNum (7/10)))).
         \<not> overflow b)"
proof -
  have none: "list_all overflow (iterator (example_world [] (PyNum (7/10))))"
    by (simp add: example_world_def fresh_process_def)
  have skipped:
    "list_all overflow (iterator (example_world [Batch True [], Batch True []] (PyNum (7/10))))"
    by (simp add: example_world_def fresh_process_def)
  have ret: "fst (train last_value example_args 1
                    (example_world [Batch True [], Batch False []] (PyNum (7/10))))
             = Inr (PyNum (7/10))"
    by (simp add: eval_defs)
  show ?thesis
    using none skipped ret
      train_unbound_valid_loss [of "example_world [] (PyNum (7/10))" last_value example_args 1]
      train_unbound_valid_loss [of "example_world [Batch True [], Batch True []] (PyNum (7/10))"
        last_value example_args 1]
      train_unbound_valid_loss [of "example_world [Batch True [], Batch False []] (PyNum (7/10))"
        last_value example_args 1]
    unfolding list_all_iff by blast
qed

section \<open>A validation pass without the statistic\<close>

text \<open>
  Claim C9. \<^verbatim>\<open>validate\<close> indexes the aggregated validation stats at the key
  \<open>auroc\<close> without a guard, first inside \<^verbatim>\<open>get_valid_stats\<close>: whenever the validation
  pass logged no \<open>auroc\<close> value, and so for an empty validation iterator, whose smoothed
  values are the empty mapping, \<^verbatim>\<open>validate\<close> raises a KeyError.
\<close>

theorem validate_missing_auroc:
  "(st ''auroc'' = None \<longrightarrow> fst (get_valid_stats w st) = Inl KeyError)
   \<and> (get_smoothed_values sm (concat (valid_iterator w)) ''auroc'' = None \<longrightarrow>
        fst (validate sm a ep w) = Inl KeyError)
   \<and> (valid_iterator w = [] \<longrightarrow> fst (validate sm a ep w) = Inl KeyError)"
  by (simp add: get_valid_stats_def validate_def get_smoothed_values_def emit_def Let_def)

theorem validate_missing_auroc_witness:
  "Map.empty ''auroc'' = (None :: pyval option)
   \<and> fst (get_valid_stats (fresh_process [] [] Map.empty False) Map.empty) = Inl KeyError
   \<and> get_smoothed_values last_value
        (concat (valid_iterator
           (fresh_process [] [[(''loss'', PyNum 1)]] Map.empty False))) ''auroc'' = None
   \<and> fst (validate last_value example_args 1
            (fresh_process [] [[(''loss'', PyNum 1)]] Map.empty False)) = Inl KeyError
   \<and> valid_iterator (fresh_process [] [] Map.empty False) = []
   \<and> fst (validate last_value example_args 1 (fresh_process [] [] Map.empty False))
       = Inl KeyError"
proof -
  have h1: "get_smoothed_values last_value
        (concat (valid_iterator
           (fresh_process [] [[(''loss'', PyNum 1)]] Map.empty False))) ''auroc'' = None"
    by (simp add: get_smoothed_values_def last_value_def fresh_process_def)
  have h2: "valid_iterator (fresh_process [] [] Map.empty False) = []"
    by (simp add: fresh_process_def)
  show ?thesis
    using h1 h2
      validate_missing_auroc [of Map.empty "fresh_process [] [] Map.empty False" last_value
        example_args 1]
      validate_missing_auroc [of Map.empty
        "fresh_process [] [[(''loss'', PyNum 1)]] Map.empty False" last_value example_args 1]
    by simp
qed

section \<open>The best score over successive validations\<close>

lemma get_valid_stats_num:
  "best w = None \<or> best w = Some (PyNum m) \<Longrightarrow>
   get_valid_stats w [''auroc'' \<mapsto> PyNum x] =
     (Inr ([''auroc'' \<mapsto> PyNum x, ''num_updates'' \<mapsto> PyNum (of_int (num_updates w)),
            ''best_auroc'' \<mapsto> PyNum (max x (case best w of None \<Rightarrow> 0 | Some _ \<Rightarrow> m))]),
      w\<lparr>best := Some (PyNum (max x (case best w of None \<Rightarrow> 0 | Some _ \<Rightarrow> m)))\<rparr>)"
  by (auto simp: get_valid_stats_def py_max_def Let_def max_def)

lemma best_aurocs_max_from:
  "best w = Some (PyNum m) \<Longrightarrow>
   best_aurocs w (map PyNum xs) = map (\<lambda>r. Some (PyNum r)) (max_from m xs)"
proof (induction xs arbitrary: w m)
  case Nil
  then show ?case by simp
next
  case (Cons x xs)
  from Cons.prems have "best w = None \<or> best w = Some (PyNum m)" by simp
  note step = get_valid_stats_num [OF this, of x]
  have "best (w\<lparr>best := Some (PyNum (max x m))\<rparr>) = Some (PyNum (max x m))" by simp
  from Cons.IH [OF this] show ?case
    using step Cons.prems by simp
qed

lemma best_aurocs_fresh:
  "best w = None \<Longrightarrow>
   best_aurocs w (map PyNum xs) = map (\<lambda>r. Some (PyNum r)) (max_from 0 xs)"
proof (cases xs)
  case Nil
  then show ?thesis by simp
next
  case (Cons x xs')
  assume none: "best w = None"
  then have "best w = None \<or> best w = Some (PyNum 0)" by simp
  note step = get_valid_stats_num [OF this, of x]
  have "best (w\<lparr>best := Some (PyNum (max x 0))\<rparr>) = Some (PyNum (max x 0))" by simp
  from best_aurocs_max_from [OF this, of xs'] show ?thesis
    using step none Cons by simp
qed

lemma max_from_running:
  "max_from m xs = map (\<lambda>k. max m (Max (set (take (Suc k) xs)))) [0..<length xs]"
proof (induction xs arbitrary: m)
  case Nil
  then show ?case by simp
next
  case (Cons x xs)
  have idx: "[0..<length (x # xs)] = 0 # map Suc [0..<length xs]"
    by (simp add: upt_conv_Cons map_Suc_upt del: upt_Suc)
  have "max (max x m) (Max (set (take (Suc k) xs))) = max m (Max (insert x (set (take (Suc k) xs))))"
    if "k < length xs" for k
  proof -
    from that have "set (take (Suc k) xs) \<noteq> {}" by (cases xs) auto
    then show ?thesis by (simp add: max.commute max.left_commute)
  qed
  then show ?case
    unfolding idx by (simp add: Cons.IH comp_def max.commute)
qed

lemma max_from_lower: "y \<in> set (max_from m xs) \<Longrightarrow> m \<le> y"
proof (induction xs arbitrary: m)
  case Nil
  then show ?case by simp
next
  case (Cons x xs)
  from Cons.prems have "y = max x m \<or> y \<in> set (max_from (max x m) xs)" by simp
  then show ?case
  proof
    assume "y = max x m"
    then show ?thesis by simp
  next
    assume "y \<in> set (max_from (max x m) xs)"
    then have "max x m \<le> y" by (rule Cons.IH)
    then show ?thesis by simp
  qed
qed

lemma sorted_max_from: "sorted (max_from m xs)"
proof (induction xs arbitrary: m)
  case Nil
  then show ?case by simp
next
  case (Cons x xs)
  have "\<forall>y\<in>set (max_from (max x m) xs). max x m \<le> y"
    using max_from_lower by blast
  with Cons.IH [of "max x m"] show ?case
    unfolding max_from.simps sorted_simps by blast
qed

lemma Max_take_nonneg:
  assumes "k < length xs" and "\<forall>x\<in>set xs. (0::real) \<le> x"
  shows "0 \<le> Max (set (take (Suc k) xs))"
proof -
  from assms(1) obtain z zs where xs: "xs = z # zs" by (cases xs) auto
  have fin: "finite (set (take (Suc k) xs))" by (rule finite_set)
  have "z \<in> set (take (Suc k) xs)" unfolding xs by simp
  with fin have "z \<le> Max (set (take (Suc k) xs))" by (rule Max_ge)
  moreover have "0 \<le> z" using assms(2) unfolding xs by simp
  ultimately show ?thesis by (rule order_trans [rotated])
qed

lemma max_from_zero:
  assumes "\<forall>x\<in>set xs. 0 \<le> x"
  shows "max_from 0 xs = running_max xs"
proof -
  have "max 0 (Max (set (take (Suc k) xs))) = Max (set (take (Suc k) xs))"
    if "k < length xs" for k
    using Max_take_nonneg [OF that assms] by (rule max_absorb2)
  then have "map (\<lambda>k. max 0 (Max (set (take (Suc k) xs)))) [0..<length xs]
           = map (\<lambda>k. Max (set (take (Suc k) xs))) [0..<length xs]"
    by (intro map_cong) auto
  then show ?thesis
    by (simp only: max_from_running running_max_def)
qed

lemma max_from_zero_running: "max_from 0 xs = map (max 0) (running_max xs)"
  by (simp only: max_from_running running_max_def map_map comp_def)

text \<open>
  Claim C6 as stated fails. For the negative values -0.5, -0.25 the reports are 0, 0,
  the baseline, and not the running maximum -0.5, -0.25; and for 0.7, NaN, 0.6 the
  reports are 0.7, NaN, 0.6, which is not a sequence that never decreases:
  \<^verbatim>\<open>max\<close> keeps its first argument when the comparison with NaN is false.
\<close>

theorem best_auroc_not_running_max:
  "best_aurocs (fresh_process [] [] Map.empty False) [PyNum (- 1/2), PyNum (- 1/4)]
     = [Some (PyNum 0), Some (PyNum 0)]
   \<and> running_max [- 1/2, - 1/4] = [- 1/2, - 1/4]
   \<and> best_aurocs (fresh_process [] [] Map.empty False) [PyNum (7/10), PyNaN, PyNum (6/10)]
     = [Some (PyNum (7/10)), Some PyNaN, Some (PyNum (6/10))]"
  by (simp add: get_valid_stats_def py_max_def fresh_process_def Let_def running_max_def
      upt_rec)

text \<open>
  Claim C6, amended. Over successive calls of \<^verbatim>\<open>get_valid_stats\<close> in one process,
  starting with the first, with \<open>auroc\<close> values that are numbers (no NaN), the reported
  \<open>best_auroc\<close> is the maximum of 0 and the running maximum of the \<open>auroc\<close> values seen
  so far, and it never decreases. For values that are not negative it is the running
  maximum itself: for 0.70, 0.65, 0.80 the reports are 0.70, 0.70, 0.80.
\<close>

theorem best_auroc_running_max_from_zero:
  assumes "best w = None"
  shows "best_aurocs w (map PyNum xs) = map (\<lambda>r. Some (PyNum (max 0 r))) (running_max xs)
       \<and> sorted (map (max 0) (running_max xs))
       \<and> (list_all (\<lambda>x. 0 \<le> x) xs \<longrightarrow>
            best_aurocs w (map PyNum xs) = map (\<lambda>r. Some (PyNum r)) (running_max xs))"
proof -
  note fresh = best_aurocs_fresh [OF assms, of xs]
  have 1: "best_aurocs w (map PyNum xs)
             = map (\<lambda>r. Some (PyNum (max 0 r))) (running_max xs)"
    unfolding fresh max_from_zero_running by (simp only: map_map comp_def)
  have 2: "sorted (map (max 0) (running_max xs))"
    using sorted_max_from [of 0 xs] by (simp only: max_from_zero_running)
  have 3: "best_aurocs w (map PyNum xs) = map (\<lambda>r. Some (PyNum r)) (running_max xs)"
    if "list_all (\<lambda>x. 0 \<le> x) xs"
  proof -
    from that have "\<forall>x\<in>set xs. 0 \<le> x" by (simp only: list_all_iff)
    then have "max_from 0 xs = running_max xs" by (rule max_from_zero)
    with fresh show ?thesis by (simp only:)
  qed
  from 1 2 3 show ?thesis by blast
qed

theorem best_auroc_running_max_from_zero_witness:
  "best (fresh_process [] [] Map.empty False) = None
   \<and> list_all (\<lambda>x. 0 \<le> x) [7/10, 65/100, 8/10 :: real]
   \<and> best_aurocs (fresh_process [] [] Map.empty False) (map PyNum [7/10, 65/100, 8/10])
       = [Some (PyNum (7/10)), Some (PyNum (7/10)), Some (PyNum (8/10))]
   \<and> best_aurocs (fresh_process [] [] Map.empty False) (map PyNum [- 1/2, 3/10, 1/10])
       = [Some (PyNum 0), Some (PyNum (3/10)), Some (PyNum (3/10))]"
proof -
  have h1: "best (fresh_process [] [] Map.empty False) = None"
    by (simp add: fresh_process_def)
  have h2: "list_all (\<lambda>x. 0 \<le> x) [7/10, 65/100, 8/10 :: real]" by simp
  have rm: "running_max [7/10, 65/100, 8/10] = [7/10, 7/10, 8/10]"
    "running_max [- 1/2, 3/10, 1/10] = [- 1/2, 3/10, 3/10]"
    by (simp_all add: running_max_def upt_rec)
  show ?thesis
    using best_auroc_running_max_from_zero [OF h1, of "[7/10, 65/100, 8/10]"]
      best_auroc_running_max_from_zero [OF h1, of "[- 1/2, 3/10, 1/10]"] h1 h2 rm
    by simp
qed

section \<open>A skipped step\<close>

text \<open>
  Claim C4. When \<^verbatim>\<open>train_step\<close> returns the skip value \<open>None\<close>, the caller does not
  treat the step as logged: the iteration emits no \<^verbatim>\<open>progress.log\<close>, resets no
  meters, calls neither \<^verbatim>\<open>validate\<close> nor \<^verbatim>\<open>save_checkpoint\<close> (the only event is the
  step itself), leaves the smoothed values of \<open>train_inner\<close>, \<open>num_updates\<close>, the best
  score and the checkpoints as they were, and the loop goes on with the next batch.
\<close>

theorem skipped_step_not_logged:
  assumes "fst (train_step [''train'', ''train_inner''] b (emit (TrainStep i) w)) = None"
  shows "train_body sm a ep i b loc w = (Inr loc, emit (TrainStep i) w)
    \<and> trace (snd (train_body sm a ep i b loc w)) = TrainStep i # trace w
    \<and> num_updates (snd (train_body sm a ep i b loc w)) = num_updates w
    \<and> get_smoothed_values sm (meters (snd (train_body sm a ep i b loc w)) ''train_inner'')
        = get_smoothed_values sm (meters w ''train_inner'')
    \<and> checkpoints (snd (train_body sm a ep i b loc w)) = checkpoints w
    \<and> best (snd (train_body sm a ep i b loc w)) = best w
    \<and> train_loop sm a ep i (b # bs) loc w
        = train_loop sm a ep (Suc i) bs loc (emit (TrainStep i) w)"
proof -
  from assms have "overflow b"
    by (simp add: train_step_def split: if_splits)
  then have body: "train_body sm a ep i b loc w = (Inr loc, emit (TrainStep i) w)"
    by (rule train_body_skip)
  show ?thesis
    unfolding train_loop.simps body by (simp add: emit_def)
qed

theorem skipped_step_not_logged_witness:
  "fst (train_step [''train'', ''train_inner''] (Batch True [(''loss'', PyNum 1)])
         (emit (TrainStep 0) (example_world [] (PyNum (7/10))))) = None
   \<and> train_body last_value example_args 1 0 (Batch True [(''loss'', PyNum 1)]) (0, None)
         (example_world [] (PyNum (7/10)))
       = (Inr (0, None), emit (TrainStep 0) (example_world [] (PyNum (7/10))))
   \<and> num_updates (snd (train_body last_value example_args 1 0
         (Batch True [(''loss'', PyNum 1)]) (0, None) (example_world [] (PyNum (7/10))))) = 0"
proof -
  have h: "fst (train_step [''train'', ''train_inner''] (Batch True [(''loss'', PyNum 1)])
         (emit (TrainStep 0) (example_world [] (PyNum (7/10))))) = None"
    by (simp add: train_step_def)
  have n: "num_updates (example_world [] (PyNum (7/10))) = 0"
    by (simp add: example_world_def fresh_process_def)
  show ?thesis
    using h n skipped_step_not_logged [OF h, of last_value example_args 1 "(0, None)" "[]"]
    by metis
qed


section \<open>The epoch loop of main\<close>

lemma main_loop_not_done:
  "epoch_idx \<le> max_epoch a \<Longrightarrow> main_loop fuel sm a epoch_idx w \<noteq> Some (Inr u, w')"
proof (induction fuel arbitrary: w)
  case 0
  then show ?case by simp
next
  case (Suc fuel)
  then show ?case
    by (simp split: prod.splits sum.splits)
qed

lemma repeats_validate:
  assumes "valid_iterator w = [[(''auroc'', PyTensor [7/10])]]"
    and "best w = None \<or> best w = Some (PyTensor [7/10])"
  shows "\<exists>w'. validate last_value a ep w = (Inr (PyTensor [7/10]), w')
           \<and> best w' = Some (PyTensor [7/10])"
  using assms
  by (auto simp: validate_def get_valid_stats_def get_smoothed_values_def last_value_def
      py_max_def emit_def Let_def)

lemma repeats_save:
  assumes "best w = Some (PyTensor [7/10])"
  shows "\<exists>u w'. save_checkpoint a ep (PyTensor [7/10]) w = (Inr u, w')"
  using assms by (simp add: save_checkpoint_def emit_def Let_def)

lemma repeats_body:
  assumes "repeats w"
  shows "\<exists>n w1. train_body last_value example_args 1 i (Batch False []) loc w
                  = (Inr (n, Some (PyTensor [7/10])), w1) \<and> repeats w1"
proof -
  let ?w2 = "after_log last_value example_args (after_step i (Batch False []) w)"
  have li: "log_interval example_args \<noteq> 0" by (simp add: example_args_def)
  from assms have 2: "valid_iterator ?w2 = [[(''auroc'', PyTensor [7/10])]]"
    "best ?w2 = None \<or> best ?w2 = Some (PyTensor [7/10])" "iterator ?w2 = [Batch False []]"
    by (simp_all add: repeats_def after_log_def after_step_def train_step_def emit_def
        reset_meters_def)
  from repeats_validate [OF 2(1,2), of example_args 1] obtain w3 where
    val: "validate last_value example_args 1 ?w2 = (Inr (PyTensor [7/10]), w3)" and
    b3: "best w3 = Some (PyTensor [7/10])" by blast
  from validate_ok(3) [OF val] 2 have 3: "valid_iterator w3 = [[(''auroc'', PyTensor [7/10])]]"
    "iterator w3 = [Batch False []]"
    by (simp_all add: same_config_def)
  from repeats_save [OF b3, of example_args 1] obtain u w4 where
    sv: "save_checkpoint example_args 1 (PyTensor [7/10]) w3 = (Inr u, w4)" by blast
  from save_checkpoint_frame(3,4) [where a = example_args and ep = 1
      and v = "PyTensor [7/10]" and w = w3] sv b3 3
  have 4: "repeats w4" by (simp add: repeats_def same_config_def)
  then have "repeats (if dist_initialized w4 then emit Barrier w4 else w4)"
    by (simp add: repeats_def emit_def)
  then show ?thesis
    using train_body_trained [of "Batch False []" last_value example_args 1 i loc w] li val sv
    by simp
qed

lemma repeats_train:
  assumes "repeats w"
  shows "\<exists>w1. train last_value example_args 1 w = (Inr (PyTensor [7/10]), w1) \<and> repeats w1"
proof -
  let ?w0 = "emit (BeginEpoch 1) w"
  from assms have r0: "repeats ?w0" and it: "iterator ?w0 = [Batch False []]"
    by (simp_all add: repeats_def emit_def)
  from repeats_body [OF r0, of 0 "(num_updates ?w0, None)"] obtain n w1 where
    body: "train_body last_value example_args 1 0 (Batch False []) (num_updates ?w0, None) ?w0
             = (Inr (n, Some (PyTensor [7/10])), w1)" and r1: "repeats w1" by blast
  from r1 have "repeats (reset_meters ''train'' (emit (ProgressPrint st ''train'' n) w1))" for st
    by (simp add: repeats_def reset_meters_def emit_def)
  then show ?thesis
    using body it by (simp add: train_def Let_def)
qed

lemma repeats_main_loop: "repeats w \<Longrightarrow> main_loop fuel last_value example_args 1 w = None"
proof (induction fuel arbitrary: w)
  case 0
  then show ?case by simp
next
  case (Suc fuel)
  from repeats_train [OF Suc.prems] obtain w1
    where t: "train last_value example_args 1 w = (Inr (PyTensor [7/10]), w1)" and l: "repeats w1"
    by blast
  from l have "repeats (emit (LrStep 1 (PyNum (7/10))) w1)"
    by (simp add: repeats_def emit_def)
  from Suc.IH [OF this] show ?case
    using t by (simp add: example_args_def main_body_def)
qed

text \<open>
  Claim C1, which the code does not meet. The claim is that for every \<open>max_epoch \<ge> 1\<close>
  the epoch loop runs each epoch once and ends after \<open>max_epoch\<close> epochs, at the log
  line "done training". The body of the loop never assigns \<open>epoch_idx\<close>: with
  \<open>max_epoch \<ge> 1\<close> the loop never reaches that line, whatever the fuel; it stops only
  by an exception, and in the example it repeats epoch 1 for ever.
\<close>

theorem main_epoch_loop_never_done:
  "(1 \<le> max_epoch a \<longrightarrow> main fuel sm a it vit store ddp \<noteq> Some (Inr u, w'))
   \<and> main fuel last_value example_args [Batch False []] [[(''auroc'', PyTensor [7/10])]]
         Map.empty False = None"
proof
  show "1 \<le> max_epoch a \<longrightarrow> main fuel sm a it vit store ddp \<noteq> Some (Inr u, w')"
    unfolding main_def using main_loop_not_done [of 1 a fuel sm _ u w'] by blast
next
  have "repeats (fresh_process [Batch False []] [[(''auroc'', PyTensor [7/10])]] Map.empty False)"
    by (simp add: repeats_def fresh_process_def)
  then show "main fuel last_value example_args [Batch False []]
               [[(''auroc'', PyTensor [7/10])]] Map.empty False = None"
    unfolding main_def by (rule repeats_main_loop)
qed

theorem main_epoch_loop_never_done_witness:
  "1 \<le> max_epoch example_args
   \<and> (\<forall>u w'. main 3 last_value example_args [Batch False []] [[(''auroc'', PyNum (7/10))]]
         Map.empty False \<noteq> Some (Inr u, w'))"
proof -
  have h: "1 \<le> max_epoch example_args" by (simp add: example_args_def)
  show ?thesis
    using h main_epoch_loop_never_done [of example_args 3 last_value "[Batch False []]"
      "[[(''auroc'', PyNum (7/10))]]" Map.empty False]
    by blast
qed

section \<open>The value handed to the learning-rate schedule\<close>








section \<open>Checkpoints and the best score across a restart\<close>

text \<open>
  Claim C5 as stated fails. The checkpoint of the example holds the best score 0.8, and
  reading it back gives that value; but in the restarted process the first call of
  \<^verbatim>\<open>get_valid_stats\<close>, with \<open>auroc\<close> 0.5, reports \<open>best_auroc\<close> 0.5: the baseline it
  compared with was 0 and not 0.8. So does a whole epoch of \<^verbatim>\<open>train\<close> there.
\<close>

theorem best_baseline_reset_on_restart:
  "load_checkpoint (EpochCkpt 1) (restarted [] [] saved_world)
     = Inr \<lparr>run_epoch = 1, run_num_updates = 120, run_best_score = Some (PyNum (8/10))\<rparr>
   \<and> reported_best (get_valid_stats (restarted [] [] saved_world) [''auroc'' \<mapsto> PyNum (5/10)])
       = Some (PyNum (5/10))
   \<and> best (snd (train last_value example_args 1
        (restarted [Batch False []] [[(''auroc'', PyNum (5/10))]] saved_world)))
       = Some (PyNum (5/10))"
  by (simp add: eval_defs load_checkpoint_def restarted_def saved_world_def reported_best_def)

text \<open>
  Claim C5, amended. On the master and for an epoch divisible by \<open>save_interval\<close>,
  \<^verbatim>\<open>save_checkpoint\<close> followed by \<^verbatim>\<open>load_checkpoint\<close> of the same name, also after a
  restart, gives a Run whose epoch, \<open>num_updates\<close> and best score are the values before
  the save. The baseline of \<^verbatim>\<open>get_valid_stats\<close> is its own attribute \<open>best\<close>: after a
  restart it is absent, the first call sets it to 0, and the \<open>best_auroc\<close> it reports is
  the maximum of the \<open>auroc\<close> value and 0, whatever the checkpoint holds.
\<close>

theorem checkpoint_round_trip_fresh_baseline:
  "(is_master a \<and> save_interval a dvd ep \<longrightarrow>
      load_checkpoint (EpochCkpt ep) (restarted it vit (snd (save_checkpoint a ep v w)))
        = Inr \<lparr>run_epoch = ep, run_num_updates = num_updates w, run_best_score = best w\<rparr>)
   \<and> best (restarted it vit w) = None
   \<and> reported_best (get_valid_stats (restarted it vit w) [''auroc'' \<mapsto> PyNum x])
       = Some (PyNum (max x 0))"
  by (auto simp: load_checkpoint_def restarted_def save_checkpoint_def fresh_process_def
      get_valid_stats_def py_max_def reported_best_def emit_def Let_def max_def
      split: option.splits sum.splits)

theorem checkpoint_round_trip_fresh_baseline_witness:
  "is_master example_args \<and> save_interval example_args dvd 1
   \<and> load_checkpoint (EpochCkpt 1) (restarted [] []
        (snd (save_checkpoint example_args 1 (PyNum (8/10))
           ((fresh_process [] [] Map.empty False)\<lparr>best := Some (PyNum (8/10))\<rparr>))))
      = Inr \<lparr>run_epoch = 1, run_num_updates = 0, run_best_score = Some (PyNum (8/10))\<rparr>"
proof -
  have h: "is_master example_args \<and> save_interval example_args dvd 1"
    by (simp add: example_args_def)
  have n: "num_updates ((fresh_process [] [] Map.empty False)\<lparr>best := Some (PyNum (8/10))\<rparr>) = 0"
    "best ((fresh_process [] [] Map.empty False)\<lparr>best := Some (PyNum (8/10))\<rparr>)
       = Some (PyNum (8/10))"
    by (simp_all add: fresh_process_def)
  show ?thesis
    using h n checkpoint_round_trip_fresh_baseline [of example_args 1 "[]" "[]" "PyNum (8/10)"
      "(fresh_process [] [] Map.empty False)\<lparr>best := Some (PyNum (8/10))\<rparr>"]
    by simp
qed

section \<open>Validation and checkpoints within an epoch\<close>

lemma epoch_checkpoints_refl: "checkpoints w' = checkpoints w \<Longrightarrow> epoch_checkpoints a ep w w'"
  by (simp add: epoch_checkpoints_def)

lemma epoch_checkpoints_trans:
  "epoch_checkpoints a ep w w1 \<Longrightarrow> epoch_checkpoints a ep w1 w2 \<Longrightarrow> epoch_checkpoints a ep w w2"
  unfolding epoch_checkpoints_def by metis

lemma validate_checkpoints: "checkpoints (snd (validate sm a ep w)) = checkpoints w"
  by (simp add: validate_def get_valid_stats_def emit_def Let_def
      split: prod.splits sum.splits option.splits)

lemma save_checkpoint_epoch: "epoch_checkpoints a ep w (snd (save_checkpoint a ep v w))"
  by (simp add: epoch_checkpoints_def save_checkpoint_def emit_def Let_def
      split: option.splits sum.splits)

lemma after_log_checkpoints: "checkpoints (after_log sm a (after_step i b w)) = checkpoints w"
  by (simp add: after_log_def after_step_def train_step_def emit_def reset_meters_def)

lemma train_body_checkpoints: "epoch_checkpoints a ep w (snd (train_body sm a ep i b loc w))"
proof (cases "overflow b")
  case True
  then show ?thesis
    by (simp add: train_body_skip emit_def epoch_checkpoints_refl)
next
  case False
  note body = train_body_trained [OF False, of sm a ep i loc w]
  let ?w2 = "after_log sm a (after_step i b w)"
  show ?thesis
  proof (cases "log_interval a = 0")
    case True
    with body show ?thesis
      by (simp add: after_step_def train_step_def emit_def epoch_checkpoints_refl)
  next
    case li: False
    obtain r w3 where val: "validate sm a ep ?w2 = (r, w3)"
      by (cases "validate sm a ep ?w2")
    from validate_checkpoints [of sm a ep ?w2] val after_log_checkpoints [of sm a i b w]
    have c3: "checkpoints w3 = checkpoints w" by simp
    show ?thesis
    proof (cases r)
      case (Inl e)
      with body li val c3 show ?thesis by (simp add: epoch_checkpoints_refl)
    next
      case (Inr v)
      obtain r4 w4 where sv: "save_checkpoint a ep v w3 = (r4, w4)"
        by (cases "save_checkpoint a ep v w3")
      from save_checkpoint_epoch [of a ep w3 v] sv c3
      have c4: "epoch_checkpoints a ep w w4" by (simp add: epoch_checkpoints_def)
      have "checkpoints (snd (train_body sm a ep i b loc w)) = checkpoints w4"
        using body li val Inr sv by (cases r4) (simp_all add: emit_def)
      with c4 show ?thesis by (simp add: epoch_checkpoints_def)
    qed
  qed
qed

lemma train_loop_checkpoints: "epoch_checkpoints a ep w (snd (train_loop sm a ep i bs loc w))"
proof (induction bs arbitrary: i loc w)
  case Nil
  then show ?case by (simp add: epoch_checkpoints_refl)
next
  case (Cons b bs)
  obtain r w1 where body: "train_body sm a ep i b loc w = (r, w1)"
    by (cases "train_body sm a ep i b loc w")
  from train_body_checkpoints [of a ep w sm i b loc] body
  have step: "epoch_checkpoints a ep w w1" by simp
  show ?case
  proof (cases r)
    case (Inl e)
    with body step show ?thesis by simp
  next
    case (Inr loc1)
    from epoch_checkpoints_trans [OF step Cons.IH [of w1 "Suc i" loc1]]
    show ?thesis using body Inr by simp
  qed
qed

lemma train_checkpoints: "epoch_checkpoints a ep w (snd (train sm a ep w))"
proof -
  let ?w0 = "emit (BeginEpoch ep) w"
  let ?run = "train_loop sm a ep 0 (iterator ?w0) (num_updates ?w0, None) ?w0"
  have "checkpoints (snd (train sm a ep w)) = checkpoints (snd ?run)"
    by (simp add: train_def Let_def reset_meters_def emit_def
        split: prod.splits sum.splits option.splits)
  moreover have "epoch_checkpoints a ep ?w0 (snd ?run)" by (rule train_loop_checkpoints)
  moreover have "checkpoints ?w0 = checkpoints w" by (simp add: emit_def)
  ultimately show ?thesis by (simp add: epoch_checkpoints_def)
qed

text \<open>
  Claim C2 as stated fails: in an epoch with two batches that train, \<^verbatim>\<open>validate\<close> is
  invoked twice, not once.
\<close>

theorem validate_twice_in_one_epoch:
  "count_events is_validate
     (trace (snd (train last_value example_args 1
        (example_world [Batch False [], Batch False []] (PyNum (7/10)))))) = 2"
  by (simp add: eval_defs count_events_def is_validate_def)

text \<open>
  Claim C2, amended. In an epoch whose batch loop runs to its end, \<^verbatim>\<open>validate\<close> is
  invoked once for every step that is not skipped, and \<^verbatim>\<open>save_checkpoint\<close> is called
  once after each of these validations; of the epoch-named checkpoints an epoch changes
  only its own, and only when \<open>save_interval\<close> divides the epoch.
\<close>

theorem validate_after_every_trained_step:
  assumes "epoch_loop_ok sm a ep w"
  shows "count_events is_validate (trace (snd (train sm a ep w)))
           = count_events is_validate (trace w) + trained (iterator w)
       \<and> count_events is_save (trace (snd (train sm a ep w)))
           = count_events is_save (trace w) + trained (iterator w)
       \<and> (\<forall>e. checkpoints (snd (train sm a ep w)) (EpochCkpt e) \<noteq> checkpoints w (EpochCkpt e)
              \<longrightarrow> e = ep \<and> save_interval a dvd ep)"
proof -
  from train_after_loop [OF assms] obtain loc w1 st where
    run: "train_loop sm a ep 0 (iterator w) (num_updates w, None) (emit (BeginEpoch ep) w)
            = (Inr loc, w1)" and
    tr: "trace (snd (train sm a ep w))
           = ResetMeters ''train'' # ProgressPrint st ''train'' (fst loc) # trace w1"
    by blast
  from train_loop_counts [OF run] tr
  have "count_events is_validate (trace (snd (train sm a ep w)))
           = count_events is_validate (trace w) + trained (iterator w)
       \<and> count_events is_save (trace (snd (train sm a ep w)))
           = count_events is_save (trace w) + trained (iterator w)"
    by (simp add: count_events_simps is_validate_def is_save_def emit_def)
  moreover from train_checkpoints [of a ep w sm]
  have "\<forall>e. checkpoints (snd (train sm a ep w)) (EpochCkpt e) \<noteq> checkpoints w (EpochCkpt e)
              \<longrightarrow> e = ep \<and> save_interval a dvd ep"
    by (auto simp: epoch_checkpoints_def)
  ultimately show ?thesis by blast
qed

theorem validate_after_every_trained_step_witness:
  "epoch_loop_ok last_value example_args 1
     (example_world [Batch False [], Batch True [], Batch False []] (PyNum (7/10)))
   \<and> count_events is_validate
        (trace (snd (train last_value example_args 1
           (example_world [Batch False [], Batch True [], Batch False []] (PyNum (7/10))))))
       = 2
   \<and> count_events is_save
        (trace (snd (train last_value example_args 1
           (example_world [Batch False [], Batch True [], Batch False []] (PyNum (7/10))))))
       = 2"
proof -
  have h: "epoch_loop_ok last_value example_args 1
     (example_world [Batch False [], Batch True [], Batch False []] (PyNum (7/10)))"
    by (simp add: epoch_loop_ok_def eval_defs)
  have t: "trace (example_world [Batch False [], Batch True [], Batch False []] (PyNum (7/10)))
             = []"
    "trained (iterator
       (example_world [Batch False [], Batch True [], Batch False []] (PyNum (7/10)))) = 2"
    by (simp_all add: example_world_def fresh_process_def trained_def)
  show ?thesis
    using h t validate_after_every_trained_step [OF h]
    by (simp add: count_events_def)
qed

section \<open>Checkpoint writes and the barrier\<close>

lemma save_then_barrier_other:
  "\<not> is_barrier e \<Longrightarrow> \<not> is_save e \<Longrightarrow> save_then_barrier (e # tr) = save_then_barrier tr"
  by (cases tr) simp_all

lemma save_then_barrier_others:
  "list_all (\<lambda>e. \<not> is_barrier e \<and> \<not> is_save e) xs \<Longrightarrow>
   save_then_barrier (xs @ tr) = save_then_barrier tr"
  by (induction xs) (simp_all add: save_then_barrier_other)

lemma valid_events_others:
  "list_all (\<lambda>e. \<not> is_barrier e \<and> \<not> is_save e) (valid_events ep k)"
  by (simp add: valid_events_def list_all_iff is_barrier_def is_save_def image_iff)

lemma log_events_others:
  "list_all (\<lambda>e. \<not> is_barrier e \<and> \<not> is_save e) (log_events sm a w)"
  by (simp add: log_events_def is_barrier_def is_save_def)

lemma save_then_barrier_step:
  "save_then_barrier (step_events sm a ep i w1 st v @ tr) = save_then_barrier tr"
proof -
  let ?rest = "valid_events ep (length (valid_iterator w1)) @ log_events sm a w1 @ [TrainStep i]"
  have plain: "list_all (\<lambda>e. \<not> is_barrier e \<and> \<not> is_save e) ?rest"
    using valid_events_others [of ep "length (valid_iterator w1)"] log_events_others [of sm a w1]
    by (simp add: is_barrier_def is_save_def)
  have rest: "save_then_barrier (?rest @ tr) = save_then_barrier tr"
    by (rule save_then_barrier_others [OF plain])
  have "save_then_barrier (ProgressPrint st ''valid'' (num_updates w1) # ?rest @ tr)
          = save_then_barrier tr"
    using rest by (simp add: save_then_barrier_other is_barrier_def is_save_def)
  then show ?thesis
    by (simp add: step_events_def is_barrier_def is_save_def is_valid_print_def)
qed

lemma count_barrier_step:
  "count_events is_barrier (step_events sm a ep i w1 st v)
     = (if dist_initialized w1 then 1 else 0)"
  by (simp add: step_events_def valid_events_def log_events_def count_events_def is_barrier_def
      filter_map comp_def)

lemma train_loop_order:
  assumes "train_loop sm a ep i bs loc w = (Inr loc', w')"
  shows "save_then_barrier (trace w') = save_then_barrier (trace w)
       \<and> count_events is_barrier (trace w')
           = count_events is_barrier (trace w) + (if dist_initialized w then trained bs else 0)"
  using assms
proof (induction bs arbitrary: i loc w)
  case Nil
  then show ?case by (simp add: trained_def)
next
  case (Cons b bs)
  from Cons.prems obtain loc1 w1 where
    body: "train_body sm a ep i b loc w = (Inr loc1, w1)" and
    tl: "train_loop sm a ep (Suc i) bs loc1 w1 = (Inr loc', w')"
    by (auto split: prod.splits sum.splits)
  note IH = Cons.IH [OF tl]
  show ?case
  proof (cases "overflow b")
    case True
    with body have "w1 = emit (TrainStep i) w"
      by (auto simp: train_body_skip)
    then have "trace w1 = TrainStep i # trace w" "dist_initialized w1 = dist_initialized w"
      by (simp_all add: emit_def)
    with IH True show ?thesis
      by (simp add: trained_def count_events_simps save_then_barrier_other
          is_barrier_def is_save_def)
  next
    case False
    from train_body_ok(1) [OF False body] obtain st v w0 where
      tr: "trace w1 = step_events sm a ep i w0 st v @ trace w" and
      cfg: "same_config w w0" by blast
    from train_body_ok(3) [OF False body] have "dist_initialized w1 = dist_initialized w"
      by (simp add: same_config_def)
    with IH False tr cfg show ?thesis
      by (simp add: trained_def count_events_simps save_then_barrier_step count_barrier_step
          same_config_def)
  qed
qed

text \<open>
  Claim C3 as stated fails in its first part, which is about the order of the calls in
  one worker: with \<^verbatim>\<open>torch.distributed\<close> initialised, the checkpoint call of a step
  comes before the barrier of that step, with no barrier between the validation and it.
\<close>

theorem save_precedes_barrier:
  "\<not> saves_after_barrier
      (trace (snd (train last_value example_args 1
         (fresh_process [Batch False []] [[(''auroc'', PyNum (7/10))]] Map.empty True))))"
  by (simp add: eval_defs is_save_def is_barrier_def is_valid_print_def)

text \<open>
  Claim C3, amended, for each worker by itself. In an epoch whose batch loop runs to its
  end, every step that is not skipped validates, then calls \<^verbatim>\<open>save_checkpoint\<close>, then
  waits at the barrier when \<^verbatim>\<open>torch.distributed\<close> is initialised: every barrier comes
  right after a checkpoint call, every checkpoint call right after the print of a
  validation, and there are as many barriers as checkpoint calls.
\<close>

theorem barrier_follows_save:
  assumes "epoch_loop_ok sm a ep w" and "save_then_barrier (trace w)"
  shows "save_then_barrier (trace (snd (train sm a ep w)))
       \<and> count_events is_barrier (trace (snd (train sm a ep w)))
           = count_events is_barrier (trace w)
             + (if dist_initialized w then trained (iterator w) else 0)
       \<and> count_events is_save (trace (snd (train sm a ep w)))
           = count_events is_save (trace w) + trained (iterator w)"
proof -
  from train_after_loop [OF assms(1)] obtain loc w1 st where
    run: "train_loop sm a ep 0 (iterator w) (num_updates w, None) (emit (BeginEpoch ep) w)
            = (Inr loc, w1)" and
    tr: "trace (snd (train sm a ep w))
           = ResetMeters ''train'' # ProgressPrint st ''train'' (fst loc) # trace w1"
    by blast
  have start: "trace (emit (BeginEpoch ep) w) = BeginEpoch ep # trace w"
    "dist_initialized (emit (BeginEpoch ep) w) = dist_initialized w"
    by (simp_all add: emit_def)
  from train_loop_order [OF run] train_loop_counts [OF run] assms(2) start
  have "save_then_barrier (trace w1)
      \<and> count_events is_barrier (trace w1)
           = count_events is_barrier (trace w)
             + (if dist_initialized w then trained (iterator w) else 0)
      \<and> count_events is_save (trace w1) = count_events is_save (trace w) + trained (iterator w)"
    by (simp add: save_then_barrier_other count_events_simps is_barrier_def is_save_def)
  with tr show ?thesis
    by (simp add: save_then_barrier_other count_events_simps is_barrier_def is_save_def)
qed

theorem barrier_follows_save_witness:
  "epoch_loop_ok last_value example_args 1
     (fresh_process [Batch False [], Batch False []] [[(''auroc'', PyNum (7/10))]]
        Map.empty True)
   \<and> save_then_barrier
        (trace (fresh_process [Batch False [], Batch False []] [[(''auroc'', PyNum (7/10))]]
           Map.empty True))
   \<and> save_then_barrier
        (trace (snd (train last_value example_args 1
           (fresh_process [Batch False [], Batch False []] [[(''auroc'', PyNum (7/10))]]
              Map.empty True))))
   \<and> count_events is_barrier
        (trace (snd (train last_value example_args 1
           (fresh_process [Batch False [], Batch False []] [[(''auroc'', PyNum (7/10))]]
              Map.empty True)))) = 2"
proof -
  let ?w = "fresh_process [Batch False [], Batch False []] [[(''auroc'', PyNum (7/10))]]
              Map.empty True"
  have h1: "epoch_loop_ok last_value example_args 1 ?w"
    by (simp add: epoch_loop_ok_def eval_defs)
  have h2: "save_then_barrier (trace ?w)" by (simp add: fresh_process_def)
  have t: "trace ?w = []" "dist_initialized ?w" "trained (iterator ?w) = 2"
    by (simp_all add: fresh_process_def trained_def)
  show ?thesis
    using h1 h2 t barrier_follows_save [OF h1 h2]
    by (simp add: count_events_def)
qed

section \<open>Mid-epoch logs and the end-of-epoch summary\<close>

lemma log_then_reset_follows: "log_then_reset tr \<Longrightarrow> reset_follows newer tr"
  by (cases tr) (simp_all add: log_then_reset_def)

lemma log_then_reset_other:
  "\<not> is_inner_log e \<Longrightarrow> log_then_reset tr \<Longrightarrow> log_then_reset (e # tr)"
  by (simp add: log_then_reset_def log_then_reset_follows)

lemma log_then_reset_others:
  "list_all (\<lambda>e. \<not> is_inner_log e) xs \<Longrightarrow> log_then_reset tr \<Longrightarrow> log_then_reset (xs @ tr)"
  by (induction xs) (simp_all add: log_then_reset_other)

lemma log_then_reset_log:
  "log_then_reset tr \<Longrightarrow> log_then_reset (log_events sm a w @ tr)"
  by (simp add: log_events_def log_then_reset_def log_then_reset_follows
      is_inner_log_def is_inner_reset_def)

lemma valid_events_no_log: "list_all (\<lambda>e. \<not> is_inner_log e) (valid_events ep k)"
  by (simp add: valid_events_def list_all_iff is_inner_log_def image_iff)

lemma log_then_reset_step:
  assumes "log_then_reset tr"
  shows "log_then_reset (step_events sm a ep i w1 st v @ tr)"
proof -
  let ?older = "valid_events ep (length (valid_iterator w1)) @ log_events sm a w1
                  @ TrainStep i # tr"
  have "log_then_reset (TrainStep i # tr)"
    using assms by (simp add: log_then_reset_other is_inner_log_def)
  then have "log_then_reset (log_events sm a w1 @ TrainStep i # tr)"
    by (rule log_then_reset_log)
  then have 1: "log_then_reset ?older"
    by (rule log_then_reset_others [OF valid_events_no_log])
  have 2: "log_then_reset (ProgressPrint st ''valid'' (num_updates w1) # ?older)"
    using 1 by (simp add: log_then_reset_other is_inner_log_def)
  have 3: "log_then_reset
     (SaveCheckpoint ep v # ProgressPrint st ''valid'' (num_updates w1) # ?older)"
    using 2 by (simp add: log_then_reset_other is_inner_log_def)
  have 4: "log_then_reset
     (Barrier # SaveCheckpoint ep v # ProgressPrint st ''valid'' (num_updates w1) # ?older)"
    using 3 by (simp add: log_then_reset_other is_inner_log_def)
  show ?thesis
    using 3 4 by (simp add: step_events_def)
qed

lemma logged_steps_others:
  "list_all (\<lambda>e. \<not> is_inner_log e) xs \<Longrightarrow> logged_steps (xs @ tr) = logged_steps tr"
  by (induction xs) (auto simp: is_inner_log_def split: event.splits)

lemma logged_steps_step:
  "logged_steps (step_events sm a ep i w1 st v @ tr)
     = (if num_updates w1 mod log_interval a = 0 then [num_updates w1] else [])
       @ logged_steps tr"
proof -
  have "logged_steps (log_events sm a w1 @ TrainStep i # tr)
     = (if num_updates w1 mod log_interval a = 0 then [num_updates w1] else [])
       @ logged_steps tr"
    by (simp add: log_events_def)
  moreover have "logged_steps (valid_events ep (length (valid_iterator w1))
       @ log_events sm a w1 @ TrainStep i # tr)
     = logged_steps (log_events sm a w1 @ TrainStep i # tr)"
    by (rule logged_steps_others [OF valid_events_no_log])
  ultimately show ?thesis
    by (simp add: step_events_def)
qed

lemma count_epoch_print_step:
  "count_events is_epoch_print (step_events sm a ep i w1 st v) = 0"
  by (simp add: step_events_def valid_events_def log_events_def count_events_def
      is_epoch_print_def filter_map comp_def)

lemma upto_first: "0 \<le> k \<Longrightarrow> [n + 1..n + 1 + k] = (n + 1) # [n + 1 + 1..n + 1 + k]"
  by (simp add: upto_rec1)

lemma train_loop_logs:
  assumes "train_loop sm a ep i bs loc w = (Inr loc', w')"
  shows "(log_then_reset (trace w) \<longrightarrow> log_then_reset (trace w'))
       \<and> logged_steps (trace w')
           = rev (filter (\<lambda>n. n mod log_interval a = 0)
                    [num_updates w + 1..num_updates w + int (trained bs)])
             @ logged_steps (trace w)
       \<and> count_events is_epoch_print (trace w') = count_events is_epoch_print (trace w)"
  using assms
proof (induction bs arbitrary: i loc w)
  case Nil
  then show ?case by (simp add: trained_def)
next
  case (Cons b bs)
  from Cons.prems obtain loc1 w1 where
    body: "train_body sm a ep i b loc w = (Inr loc1, w1)" and
    tl: "train_loop sm a ep (Suc i) bs loc1 w1 = (Inr loc', w')"
    by (auto split: prod.splits sum.splits)
  note IH = Cons.IH [OF tl]
  show ?case
  proof (cases "overflow b")
    case True
    with body have "w1 = emit (TrainStep i) w"
      by (auto simp: train_body_skip)
    then have w1: "trace w1 = TrainStep i # trace w" "num_updates w1 = num_updates w"
      by (simp_all add: emit_def)
    have "log_then_reset (trace w) \<longrightarrow> log_then_reset (trace w1)"
      by (simp add: w1 log_then_reset_other is_inner_log_def)
    with IH True w1 show ?thesis
      by (simp add: trained_def count_events_simps is_epoch_print_def)
  next
    case False
    from train_body_ok(1) [OF False body] obtain st v w0 where
      tr: "trace w1 = step_events sm a ep i w0 st v @ trace w" and
      n0: "num_updates w0 = num_updates w + 1" by blast
    from train_body_ok(2) [OF False body] have n1: "num_updates w1 = num_updates w + 1" .
    have k: "trained (b # bs) = Suc (trained bs)"
      using False by (simp add: trained_def)
    have range: "[num_updates w + 1..num_updates w + int (trained (b # bs))]
        = (num_updates w + 1) # [num_updates w + 1 + 1..num_updates w + 1 + int (trained bs)]"
      using upto_first [of "int (trained bs)" "num_updates w"] by (simp add: k add.assoc)
    have inv: "log_then_reset (trace w) \<longrightarrow> log_then_reset (trace w1)"
      by (simp add: tr log_then_reset_step)
    have steps: "logged_steps (trace w')
        = rev (filter (\<lambda>n. n mod log_interval a = 0)
                 [num_updates w + 1 + 1..num_updates w + 1 + int (trained bs)])
          @ (if (num_updates w + 1) mod log_interval a = 0 then [num_updates w + 1] else [])
          @ logged_steps (trace w)"
      using IH by (simp add: n1 tr logged_steps_step n0)
    have prints: "count_events is_epoch_print (trace w')
        = count_events is_epoch_print (trace w)"
      using IH by (simp add: tr count_events_simps count_epoch_print_step)
    from inv IH have "log_then_reset (trace w) \<longrightarrow> log_then_reset (trace w')" by blast
    moreover have "logged_steps (trace w')
        = rev (filter (\<lambda>n. n mod log_interval a = 0)
                 [num_updates w + 1..num_updates w + int (trained (b # bs))])
          @ logged_steps (trace w)"
      unfolding range steps by simp
    ultimately show ?thesis using prints by blast
  qed
qed

text \<open>
  Claim C7. Within an epoch whose batch loop runs to its end, mid-epoch stats are
  logged with tag \<open>train_inner\<close> exactly after the steps that are not skipped and bring
  \<open>num_updates\<close> to a multiple of \<open>log_interval\<close>, each log has the reset of the
  \<open>train_inner\<close> meters right after it, and the end-of-epoch summary with tag \<open>train\<close>
  is printed exactly once, whatever the interval.
\<close>

theorem mid_epoch_log_cadence:
  assumes "epoch_loop_ok sm a ep w" and "log_then_reset (trace w)"
  shows "log_then_reset (trace (snd (train sm a ep w)))
       \<and> logged_steps (trace (snd (train sm a ep w)))
           = rev (filter (\<lambda>n. n mod log_interval a = 0)
                    [num_updates w + 1..num_updates w + int (trained (iterator w))])
             @ logged_steps (trace w)
       \<and> count_events is_epoch_print (trace (snd (train sm a ep w)))
           = Suc (count_events is_epoch_print (trace w))"
proof -
  from train_after_loop [OF assms(1)] obtain loc w1 st where
    run: "train_loop sm a ep 0 (iterator w) (num_updates w, None) (emit (BeginEpoch ep) w)
            = (Inr loc, w1)" and
    tr: "trace (snd (train sm a ep w))
           = ResetMeters ''train'' # ProgressPrint st ''train'' (fst loc) # trace w1"
    by blast
  have start: "trace (emit (BeginEpoch ep) w) = BeginEpoch ep # trace w"
    "num_updates (emit (BeginEpoch ep) w) = num_updates w"
    by (simp_all add: emit_def)
  have "log_then_reset (trace (emit (BeginEpoch ep) w))"
    using assms(2) by (simp add: start log_then_reset_other is_inner_log_def)
  with train_loop_logs [OF run] start
  have 1: "log_then_reset (trace w1)"
    and 2: "logged_steps (trace w1)
           = rev (filter (\<lambda>n. n mod log_interval a = 0)
                    [num_updates w + 1..num_updates w + int (trained (iterator w))])
             @ logged_steps (trace w)"
    and 3: "count_events is_epoch_print (trace w1) = count_events is_epoch_print (trace w)"
    by (simp_all add: count_events_simps is_epoch_print_def)
  from 1 have "log_then_reset (ProgressPrint st ''train'' (fst loc) # trace w1)"
    by (simp add: log_then_reset_other is_inner_log_def)
  then have "log_then_reset (trace (snd (train sm a ep w)))"
    by (simp add: tr log_then_reset_other is_inner_log_def)
  with 2 3 show ?thesis
    by (simp add: tr count_events_simps is_epoch_print_def)
qed

theorem mid_epoch_log_cadence_witness:
  "epoch_loop_ok last_value (example_args\<lparr>log_interval := 2\<rparr>) 1
     (example_world [Batch False [], Batch False [], Batch True [], Batch False [],
        Batch False []] (PyNum (7/10)))
   \<and> log_then_reset
        (trace (example_world [Batch False [], Batch False [], Batch True [], Batch False [],
           Batch False []] (PyNum (7/10))))
   \<and> log_then_reset
        (trace (snd (train last_value (example_args\<lparr>log_interval := 2\<rparr>) 1
           (example_world [Batch False [], Batch False [], Batch True [], Batch False [],
              Batch False []] (PyNum (7/10))))))
   \<and> logged_steps
        (trace (snd (train last_value (example_args\<lparr>log_interval := 2\<rparr>) 1
           (example_world [Batch False [], Batch False [], Batch True [], Batch False [],
              Batch False []] (PyNum (7/10)))))) = [4, 2]
   \<and> count_events is_epoch_print
        (trace (snd (train last_value (example_args\<lparr>log_interval := 2\<rparr>) 1
           (example_world [Batch False [], Batch False [], Batch True [], Batch False [],
              Batch False []] (PyNum (7/10)))))) = 1"
proof -
  let ?w = "example_world [Batch False [], Batch False [], Batch True [], Batch False [],
              Batch False []] (PyNum (7/10))"
  let ?a = "example_args\<lparr>log_interval := 2\<rparr>"
  have h1: "epoch_loop_ok last_value ?a 1 ?w"
    by (simp add: epoch_loop_ok_def eval_defs)
  have h2: "log_then_reset (trace ?w)"
    by (simp add: example_world_def fresh_process_def log_then_reset_def)
  have t: "trace ?w = []" "num_updates ?w = 0" "trained (iterator ?w) = 4"
    "log_interval ?a = 2"
    by (simp_all add: example_world_def fresh_process_def trained_def)
  have steps: "rev (filter (\<lambda>n. n mod 2 = 0) [0 + 1..0 + int 4]) = [4, 2 :: int]"
    by (simp add: upto_rec1)
  show ?thesis
    using h1 h2 mid_epoch_log_cadence [OF h1 h2] steps
    by (simp add: t count_events_def)
qed

end
